theory Spec2Isabelle
  imports Complex_Main "HOL-Library.AList" "HOL-Library.Sublist"
begin

section \<open>Values of the data frame\<close>

text \<open>
  \<^verbatim>\<open>app.py\<close> is a script over a pandas data frame. The frame operations it calls are
  library code; they are written out here as far as the script uses them, each next to
  the pandas behaviour it stands for.

  A float64 is a finite value, one of the two infinities, or NaN. \<open>Fin x\<close> is the
  finite float of value \<open>x\<close>, with \<open>Fin 0\<close> the positive zero; \<open>NZero\<close> is the
  negative zero.
\<close>

datatype fl = Fin real | NZero | PInf | NInf | NaN

text \<open>The value of a finite float, the sign bit, and the signed zero and infinity.\<close>

fun fval :: "fl \<Rightarrow> real" where
  "fval (Fin x) = x"
| "fval _ = 0"

fun fneg :: "fl \<Rightarrow> bool" where
  "fneg (Fin x) = (x < 0)"
| "fneg NZero = True"
| "fneg NInf = True"
| "fneg _ = False"

fun is_finite :: "fl \<Rightarrow> bool" where
  "is_finite (Fin x) = True"
| "is_finite NZero = True"
| "is_finite _ = False"

definition zero_s :: "bool \<Rightarrow> fl" where
  "zero_s neg = (if neg then NZero else Fin 0)"

definition inf_s :: "bool \<Rightarrow> fl" where
  "inf_s neg = (if neg then NInf else PInf)"

text \<open>
  Rounding a real to the nearest float64, ties to even (IEEE 754 binary64: 53 significant
  bits, exponents from \<open>-1022\<close> to \<open>1023\<close>, gradual underflow, overflow to infinity).
  \<open>floor_log2 x\<close> is the exponent \<open>e\<close> with \<open>2\<^sup>e \<le> x < 2\<^sup>e\<^sup>+\<^sup>1\<close>, for
  \<open>x > 0\<close>. The flag of \<open>round64\<close> is the sign that an exact zero takes.
\<close>

function bit_length :: "int \<Rightarrow> nat" where
  "bit_length n = (if n \<le> 0 then 0 else Suc (bit_length (n div 2)))"
  by pat_completeness auto
termination
  by (relation "measure nat") auto

declare bit_length.simps [simp del]

definition floor_log2 :: "real \<Rightarrow> int" where
  "floor_log2 x =
     (if 1 \<le> x then int (bit_length \<lfloor>x\<rfloor>) - 1
      else - int (bit_length (\<lceil>1 / x\<rceil> - 1)))"

definition pow2 :: "int \<Rightarrow> real" where
  "pow2 e = (if 0 \<le> e then 2 ^ nat e else 1 / 2 ^ nat (- e))"

definition round_half_even :: "real \<Rightarrow> int" where
  "round_half_even m =
     (let f = \<lfloor>m\<rfloor>; d = m - of_int f
      in if d < 1 / 2 then f else if 1 / 2 < d then f + 1 else if even f then f else f + 1)"

definition round64 :: "bool \<Rightarrow> real \<Rightarrow> fl" where
  "round64 neg x =
     (if x = 0 then zero_s neg
      else
        let e = max (floor_log2 \<bar>x\<bar>) (- 1022);
            u = pow2 (e - 52);
            r = of_int (round_half_even (x / u)) * u
        in if r = 0 then zero_s (x < 0)
           else if pow2 1024 \<le> \<bar>r\<bar> then inf_s (x < 0)
           else Fin r)"

text \<open>
  Division, multiplication, subtraction and addition of floats, each correctly rounded,
  with the IEEE rules for zeros, infinities and NaN.
\<close>

definition fdiv :: "fl \<Rightarrow> fl \<Rightarrow> fl" where
  "fdiv a b =
     (if a = NaN \<or> b = NaN then NaN
      else
        let s = (fneg a \<noteq> fneg b)
        in if is_finite a then
             (if is_finite b then
                (if fval b = 0 then (if fval a = 0 then NaN else inf_s s)
                 else round64 s (fval a / fval b))
              else zero_s s)
           else (if is_finite b then inf_s s else NaN))"

definition fmul :: "fl \<Rightarrow> fl \<Rightarrow> fl" where
  "fmul a b =
     (if a = NaN \<or> b = NaN then NaN
      else
        let s = (fneg a \<noteq> fneg b)
        in if is_finite a \<and> is_finite b then round64 s (fval a * fval b)
           else if (is_finite a \<and> fval a = 0) \<or> (is_finite b \<and> fval b = 0) then NaN
           else inf_s s)"

definition fsub :: "fl \<Rightarrow> fl \<Rightarrow> fl" where
  "fsub a b =
     (if a = NaN \<or> b = NaN then NaN
      else if is_finite a then
        (if is_finite b then round64 (fneg a \<and> \<not> fneg b) (fval a - fval b)
         else inf_s (\<not> fneg b))
      else if is_finite b then a
      else if a = b then NaN
      else a)"

definition fadd :: "fl \<Rightarrow> fl \<Rightarrow> fl" where
  "fadd a b =
     (if a = NaN \<or> b = NaN then NaN
      else if is_finite a then
        (if is_finite b then round64 (fneg a \<and> fneg b) (fval a + fval b) else b)
      else if is_finite b then a
      else if a = b then a
      else NaN)"

text \<open>
  The comparisons \<^verbatim>\<open>a > b\<close> and \<^verbatim>\<open>a == b\<close> of two floats: false as soon as one of
  them is NaN; the two zeros are equal.
\<close>

definition fgt :: "fl \<Rightarrow> fl \<Rightarrow> bool" where
  "fgt a b =
     (if a = NaN \<or> b = NaN then False
      else if a = PInf then b \<noteq> PInf
      else if a = NInf then False
      else if b = PInf then False
      else if b = NInf then True
      else fval b < fval a)"

definition feq :: "fl \<Rightarrow> fl \<Rightarrow> bool" where
  "feq a b =
     (if a = NaN \<or> b = NaN then False
      else if is_finite a \<and> is_finite b then fval a = fval b
      else a = b)"

text \<open>
  A timestamp of the daily index is a day number, counted from 1970-01-01 (a Thursday).
  \<^verbatim>\<open>DatetimeIndex.dayofweek\<close> numbers Monday as 0 and Sunday as 6.
\<close>

type_synonym date = int

definition dayofweek :: "date \<Rightarrow> int" where
  "dayofweek d = (d + 3) mod 7"

text \<open>
  A column is a typed series: float64, integer, or categorical. A category is an integer
  (the decoded state) or a string (its label).
\<close>

datatype cat = CatInt int | CatStr string

datatype column = FloatCol "fl list" | IntCol "int list" | CatCol "cat list"

datatype error = KeyError | ValueError | TypeError

fun col_len :: "column \<Rightarrow> nat" where
  "col_len (FloatCol xs) = length xs"
| "col_len (IntCol xs) = length xs"
| "col_len (CatCol xs) = length xs"

text \<open>Selection by a boolean mask keeps the positions where the mask is true.\<close>

definition keep :: "bool list \<Rightarrow> 'a list \<Rightarrow> 'a list" where
  "keep m xs = map fst (filter snd (zip xs m))"

fun col_keep :: "bool list \<Rightarrow> column \<Rightarrow> column" where
  "col_keep m (FloatCol xs) = FloatCol (keep m xs)"
| "col_keep m (IntCol xs) = IntCol (keep m xs)"
| "col_keep m (CatCol xs) = CatCol (keep m xs)"

fun col_drop :: "nat \<Rightarrow> column \<Rightarrow> column" where
  "col_drop n (FloatCol xs) = FloatCol (drop n xs)"
| "col_drop n (IntCol xs) = IntCol (drop n xs)"
| "col_drop n (CatCol xs) = CatCol (drop n xs)"

text \<open>\<^verbatim>\<open>series == v\<close> for an integer \<open>v\<close>, elementwise.\<close>

fun col_eq :: "column \<Rightarrow> int \<Rightarrow> bool list" where
  "col_eq (FloatCol xs) v = map (\<lambda>x. feq x (round64 False (of_int v))) xs"
| "col_eq (IntCol xs) v = map (\<lambda>x. x = v) xs"
| "col_eq (CatCol xs) v = map (\<lambda>x. x = CatInt v) xs"

text \<open>
  Numeric series as floats (an integer is rounded to the nearest float); arithmetic on a
  categorical series raises TypeError.
\<close>

fun to_float :: "column \<Rightarrow> error + fl list" where
  "to_float (FloatCol xs) = Inr xs"
| "to_float (IntCol xs) = Inr (map (\<lambda>i. round64 False (of_int i)) xs)"
| "to_float (CatCol xs) = Inl TypeError"

section \<open>Data frames\<close>

text \<open>
  A frame is its row index and its columns in order, each under its label. In a
  well-formed frame every column has one entry per row.
\<close>

record frame =
  index :: "date list"
  columns :: "(string \<times> column) list"

definition wf_frame :: "frame \<Rightarrow> bool" where
  "wf_frame f = list_all (\<lambda>nc. col_len (snd nc) = length (index f)) (columns f)"

definition bind_e :: "error + 'a \<Rightarrow> ('a \<Rightarrow> error + 'b) \<Rightarrow> error + 'b" where
  "bind_e m k = (case m of Inl e \<Rightarrow> Inl e | Inr x \<Rightarrow> k x)"

text \<open>\<^verbatim>\<open>f[name]\<close>: the column, or KeyError.\<close>

definition getitem :: "frame \<Rightarrow> string \<Rightarrow> error + column" where
  "getitem f name = (case map_of (columns f) name of None \<Rightarrow> Inl KeyError | Some c \<Rightarrow> Inr c)"

text \<open>
  \<^verbatim>\<open>f[name] = values\<close>: replaces the column of that label where it stands, or appends a
  new last column; ValueError when the length of the values is not the number of rows.
\<close>

definition setitem :: "frame \<Rightarrow> string \<Rightarrow> column \<Rightarrow> error + frame" where
  "setitem f name c =
     (if col_len c \<noteq> length (index f) then Inl ValueError
      else Inr (f\<lparr>columns := AList.update name c (columns f)\<rparr>))"

text \<open>\<^verbatim>\<open>f[mask]\<close>: the rows where the mask is true; ValueError on a mask of the wrong length.\<close>

definition mask_rows :: "frame \<Rightarrow> bool list \<Rightarrow> error + frame" where
  "mask_rows f m =
     (if length m \<noteq> length (index f) then Inl ValueError
      else Inr \<lparr>index = keep m (index f),
                columns = map (\<lambda>nc. (fst nc, col_keep m (snd nc))) (columns f)\<rparr>)"

text \<open>\<^verbatim>\<open>f[[n1, n2, ...]]\<close>: the named columns in the order asked; KeyError when one is missing.\<close>

fun pick :: "(string \<times> column) list \<Rightarrow> string list \<Rightarrow> error + (string \<times> column) list" where
  "pick cs [] = Inr []"
| "pick cs (n # ns) =
     (case map_of cs n of
        None \<Rightarrow> Inl KeyError
      | Some c \<Rightarrow> (case pick cs ns of Inl e \<Rightarrow> Inl e | Inr r \<Rightarrow> Inr ((n, c) # r)))"

definition select :: "frame \<Rightarrow> string list \<Rightarrow> error + frame" where
  "select f names = bind_e (pick (columns f) names) (\<lambda>cs. Inr (f\<lparr>columns := cs\<rparr>))"

text \<open>\<^verbatim>\<open>f.iloc[1:]\<close>: all rows but the first.\<close>

definition iloc_from1 :: "frame \<Rightarrow> frame" where
  "iloc_from1 f =
     \<lparr>index = drop 1 (index f),
      columns = map (\<lambda>nc. (fst nc, col_drop 1 (snd nc))) (columns f)\<rparr>"

section \<open>Series operations\<close>

text \<open>
  \<^verbatim>\<open>Series.pct_change()\<close> divides the series by itself shifted down one row and subtracts
  one; the shifted series starts with NaN. (Some pandas versions forward-fill missing
  prices first; the division is modelled as it stands, and both agree on series without
  missing values.)
\<close>

definition shift1 :: "fl list \<Rightarrow> fl list" where
  "shift1 xs = take (length xs) (NaN # xs)"

definition pct_change :: "fl list \<Rightarrow> fl list" where
  "pct_change xs = map (\<lambda>ds. fsub (fdiv (fst ds) (snd ds)) (Fin 1)) (zip xs (shift1 xs))"

text \<open>
  \<^verbatim>\<open>Series.var()\<close> is the two-pass sample variance over the values that are not missing:
  with fewer than two of them the result is NaN; otherwise the missing entries are set to
  zero, the mean is the sum over the count, and the result is the sum of the squared
  deviations from the mean over the count less one, every operation rounded.

  The order in which the library adds up an array is not fixed by the script (numpy sums
  long arrays blockwise, the optional bottleneck package from left to right), and the
  rounded sum depends on it. The summation is therefore the parameter \<open>fsum\<close>;
  \<open>seq_sum\<close> is the summation from left to right, which is also what numpy does on
  fewer than eight entries.
\<close>

definition series_var :: "(fl list \<Rightarrow> fl) \<Rightarrow> fl list \<Rightarrow> fl" where
  "series_var fsum xs =
     (let count = length (filter (\<lambda>x. x \<noteq> NaN) xs) in
      if count \<le> 1 then NaN
      else
        let vals = map (\<lambda>x. if x = NaN then Fin 0 else x) xs;
            avg = fdiv (fsum vals) (Fin (real count));
            sqr = map (\<lambda>x. if x = NaN then Fin 0
                            else fmul (fsub avg x) (fsub avg x)) xs
        in fdiv (fsum sqr) (Fin (real (count - 1))))"

definition seq_sum :: "fl list \<Rightarrow> fl" where
  "seq_sum xs = foldl fadd (Fin 0) xs"

section \<open>The script\<close>

text \<open>
  The input is \<open>df\<close>, the frame of daily closing prices that the download returns
  (line 34), and \<open>ticker\<close>, the label of its price column.

  Lines 35 and 37: the weekday of every row is stored as column \<^verbatim>\<open>weekday\<close>, and
  \<open>fridays\<close> is the rows whose weekday is 4.
\<close>

definition df_weekday :: "frame \<Rightarrow> error + frame" where
  "df_weekday df = setitem df ''weekday'' (IntCol (map dayofweek (index df)))"

definition fridays_filter :: "frame \<Rightarrow> error + frame" where
  "fridays_filter df =
     bind_e (df_weekday df) (\<lambda>df'.
     bind_e (getitem df' ''weekday'') (\<lambda>wd.
     mask_rows df' (col_eq wd 4)))"

text \<open>Line 38: \<^verbatim>\<open>fridays['returns'] = fridays[ticker].pct_change() * 100\<close>.\<close>

definition fridays_returns :: "string \<Rightarrow> frame \<Rightarrow> error + frame" where
  "fridays_returns ticker fridays =
     bind_e (getitem fridays ticker) (\<lambda>c.
     bind_e (to_float c) (\<lambda>xs.
     setitem fridays ''returns'' (FloatCol (map (\<lambda>x. fmul x (Fin 100)) (pct_change xs)))))"

text \<open>Line 39: \<^verbatim>\<open>fridays = fridays[[ticker, 'returns']].iloc[1:]\<close>.\<close>

definition fridays_iloc :: "string \<Rightarrow> frame \<Rightarrow> error + frame" where
  "fridays_iloc ticker fridays =
     bind_e (select fridays [ticker, ''returns'']) (\<lambda>f. Inr (iloc_from1 f))"

text \<open>Line 44: the returns column as the array of observations.\<close>

definition returns_array :: "frame \<Rightarrow> error + fl list" where
  "returns_array fridays = bind_e (getitem fridays ''returns'') to_float"

text \<open>
  Line 46: the constructor call of the model. The covariance types of the library are
  spherical, diag, full and tied; a \<^verbatim>\<open>random_state\<close> of \<^verbatim>\<open>None\<close> would mean the global
  random state.
\<close>

datatype covariance = Spherical | Diag | Full | Tied

record hmm_config =
  n_components :: nat
  covariance_type :: covariance
  n_iter :: nat
  random_state :: "int option"

definition model :: hmm_config where
  "model = \<lparr>n_components = 2, covariance_type = Full, n_iter = 10000,
            random_state = Some 2606\<rparr>"

text \<open>
  Lines 50 and 51: \<^verbatim>\<open>fridays[states == k]['returns'].var()\<close>, for the decoded states
  \<open>states\<close> (one integer per row, from \<^verbatim>\<open>model.predict\<close>).
\<close>

definition state_var :: "(fl list \<Rightarrow> fl) \<Rightarrow> frame \<Rightarrow> int list \<Rightarrow> int \<Rightarrow> error + fl" where
  "state_var fsum fridays states k =
     bind_e (mask_rows fridays (map (\<lambda>s. s = k) states)) (\<lambda>f.
     bind_e (getitem f ''returns'') (\<lambda>c.
     bind_e (to_float c) (\<lambda>xs. Inr (series_var fsum xs))))"

text \<open>Lines 52 to 55: the dictionary \<open>labels\<close>.\<close>

definition labels :: "(fl list \<Rightarrow> fl) \<Rightarrow> frame \<Rightarrow> int list \<Rightarrow> error + (int \<rightharpoonup> string)" where
  "labels fsum fridays states =
     bind_e (state_var fsum fridays states 0) (\<lambda>var_0.
     bind_e (state_var fsum fridays states 1) (\<lambda>var_1.
     Inr (if fgt var_0 var_1
          then [0 \<mapsto> ''High Vol'', 1 \<mapsto> ''Low Vol'']
          else [1 \<mapsto> ''High Vol'', 0 \<mapsto> ''Low Vol''])))"

text \<open>
  Line 57: \<^verbatim>\<open>fridays['state'] = pd.Categorical(states).rename_categories(labels)\<close>. Renaming
  by a dictionary maps every category that is a key and passes the others through.
\<close>

definition rename_categories :: "(int \<rightharpoonup> string) \<Rightarrow> int list \<Rightarrow> cat list" where
  "rename_categories lab states =
     map (\<lambda>s. case lab s of None \<Rightarrow> CatInt s | Some l \<Rightarrow> CatStr l) states"

definition fridays_state :: "frame \<Rightarrow> int list \<Rightarrow> (int \<rightharpoonup> string) \<Rightarrow> error + frame" where
  "fridays_state fridays states lab =
     setitem fridays ''state'' (CatCol (rename_categories lab states))"

text \<open>The returns at the rows decoded as state \<open>k\<close>.\<close>

definition restricted :: "'a list \<Rightarrow> int list \<Rightarrow> int \<Rightarrow> 'a list" where
  "restricted xs states k = keep (map (\<lambda>s. s = k) states) xs"

section \<open>Notions of the specification\<close>

text \<open>
  The sample variance as the specification words it, in exact arithmetic: the sum of
  squared deviations from the mean, over one less than the number of samples.
\<close>

definition spec_mean :: "real list \<Rightarrow> real" where
  "spec_mean xs = sum_list xs / real (length xs)"

definition spec_sample_variance :: "real list \<Rightarrow> real" where
  "spec_sample_variance xs =
     (\<Sum>x\<leftarrow>xs. (x - spec_mean xs)\<^sup>2) / (real (length xs) - 1)"

section \<open>Float lemmas\<close>

lemmas round64_eval = round64_def floor_log2_def pow2_def round_half_even_def
  bit_length.simps zero_s_def inf_s_def Let_def

lemma fgt_irrefl: "\<not> fgt x x"
  by (simp add: fgt_def)

lemma fgt_NaN_right: "\<not> fgt x NaN"
  by (simp add: fgt_def)

lemma fgt_NaN_left: "\<not> fgt NaN x"
  by (simp add: fgt_def)

lemma fgt_asym: "fgt x y \<Longrightarrow> \<not> fgt y x"
  by (auto simp: fgt_def split: if_splits)

text \<open>
  An integer below \<open>2\<^sup>5\<^sup>3\<close> in absolute value is a float: rounding leaves it as it is.
\<close>

lemma bit_length_bounds:
  "0 < n \<Longrightarrow> 2 ^ (bit_length n - 1) \<le> n \<and> n < 2 ^ bit_length n \<and> 0 < bit_length n"
proof (induction n rule: bit_length.induct)
  case (1 n)
  show ?case
  proof (cases "n = 1")
    case True
    then show ?thesis
      by (simp add: bit_length.simps)
  next
    case False
    with "1.prems" have pos: "0 < n div 2" and n0: "\<not> n \<le> 0"
      by auto
    from "1.IH" [OF n0 pos] have ih:
      "2 ^ (bit_length (n div 2) - 1) \<le> n div 2" "n div 2 < 2 ^ bit_length (n div 2)"
      "0 < bit_length (n div 2)"
      by auto
    have bl: "bit_length n = Suc (bit_length (n div 2))"
      using n0 by (subst bit_length.simps) simp
    have "2 ^ (bit_length n - 1) = 2 * 2 ^ (bit_length (n div 2) - 1)"
      using ih(3) bl by (cases "bit_length (n div 2)") auto
    also have "\<dots> \<le> 2 * (n div 2)"
      using ih(1) by simp
    also have "\<dots> \<le> n"
      by simp
    finally have lo: "2 ^ (bit_length n - 1) \<le> n" .
    have "n < 2 * (n div 2) + 2"
      by simp
    also have "\<dots> \<le> 2 * 2 ^ bit_length (n div 2)"
      using ih(2) by simp
    finally have hi: "n < 2 ^ bit_length n"
      by (simp add: bl)
    from lo hi bl show ?thesis
      by simp
  qed
qed

lemma round_half_even_of_int: "round_half_even (of_int m) = m"
  by (simp add: round_half_even_def)

lemma round64_of_int:
  assumes "n \<noteq> 0" and "\<bar>n\<bar> < 2 ^ 53"
  shows "round64 s (of_int n) = Fin (of_int n)"
proof -
  define a where "a = \<bar>n\<bar>"
  define b where "b = bit_length a"
  have apos: "0 < a"
    using assms(1) by (simp add: a_def)
  from bit_length_bounds [OF apos]
  have lo: "2 ^ (b - 1) \<le> a" and hi: "a < 2 ^ b" and bpos: "0 < b"
    by (simp_all add: b_def)
  have b53: "b \<le> 53"
  proof (rule ccontr)
    assume "\<not> b \<le> 53"
    then have "53 \<le> b - 1"
      by simp
    then have "(2::int) ^ 53 \<le> 2 ^ (b - 1)"
      by (rule power_increasing) simp
    with lo assms(2) show False
      by (simp add: a_def)
  qed
  have abs_eq: "\<bar>of_int n :: real\<bar> = of_int a"
    by (simp add: a_def)
  have fl: "floor_log2 (of_int a) = int b - 1"
    using apos by (simp add: floor_log2_def b_def)
  have e: "max (floor_log2 \<bar>of_int n\<bar>) (- 1022) = int b - 1"
    by (simp add: abs_eq fl)
  define k where "k = 53 - b"
  have u: "pow2 (int b - 53) = 1 / 2 ^ k"
    using b53 bpos by (auto simp: pow2_def k_def nat_diff_distrib')
  have q: "(of_int n :: real) / (1 / 2 ^ k) = of_int (n * 2 ^ k)"
    by simp
  have r: "of_int (round_half_even (of_int n / (1 / 2 ^ k))) * (1 / 2 ^ k) = (of_int n :: real)"
    unfolding q round_half_even_of_int by simp
  have "\<bar>of_int n :: real\<bar> < 2 ^ 53"
    using assms(2) by (metis of_int_abs of_int_less_numeral_power_cancel_iff)
  also have "(2::real) ^ 53 \<le> 2 ^ 1024"
    by (rule power_increasing) simp_all
  finally have big: "\<not> pow2 1024 \<le> \<bar>of_int n :: real\<bar>"
    by (simp add: pow2_def)
  have e52: "max (floor_log2 \<bar>of_int n\<bar>) (- 1022) - 52 = int b - 53"
    using e by simp
  have R: "of_int (round_half_even
             (of_int n / pow2 (max (floor_log2 \<bar>of_int n\<bar>) (- 1022) - 52))) *
           pow2 (max (floor_log2 \<bar>of_int n\<bar>) (- 1022) - 52) = (of_int n :: real)"
    unfolding e52 u by (rule r)
  show ?thesis
    unfolding round64_def Let_def R using assms(1) big by simp
qed

lemma round64_numeral:
  "numeral k < (2::int) ^ 53 \<Longrightarrow> round64 s (numeral k) = Fin (numeral k)"
  using round64_of_int [of "numeral k" s] by simp

lemma round64_neg_numeral:
  "numeral k < (2::int) ^ 53 \<Longrightarrow> round64 s (- numeral k) = Fin (- numeral k)"
  using round64_of_int [of "- numeral k" s] by simp

lemma round64_one: "round64 s 1 = Fin 1"
  using round64_of_int [of 1 s] by simp

lemma round64_neg_one: "round64 s (- 1) = Fin (- 1)"
  using round64_of_int [of "- 1" s] by simp

lemma round64_zero: "round64 s 0 = zero_s s"
  by (simp add: round64_def)

lemma fadd_Fin: "fadd (Fin x) (Fin y) = round64 (x < 0 \<and> y < 0) (x + y)"
  by (simp add: fadd_def)

lemma fsub_Fin: "fsub (Fin x) (Fin y) = round64 (x < 0 \<and> \<not> y < 0) (x - y)"
  by (simp add: fsub_def)

lemma fmul_Fin: "fmul (Fin x) (Fin y) = round64 ((x < 0) \<noteq> (y < 0)) (x * y)"
  by (simp add: fmul_def)

lemma fdiv_Fin: "y \<noteq> 0 \<Longrightarrow> fdiv (Fin x) (Fin y) = round64 ((x < 0) \<noteq> (y < 0)) (x / y)"
  by (simp add: fdiv_def)

lemmas fl_int = fadd_Fin fsub_Fin fmul_Fin fdiv_Fin zero_s_def
  round64_numeral round64_neg_numeral round64_one round64_neg_one round64_zero

lemmas fl_round = fadd_Fin fsub_Fin fmul_Fin fdiv_Fin round64_eval

section \<open>Frame lemmas\<close>

lemma bind_e_Inr [simp]: "bind_e (Inr x) k = k x"
  by (simp add: bind_e_def)

lemma bind_e_Inl [simp]: "bind_e (Inl e) k = Inl e"
  by (simp add: bind_e_def)

lemma keep_map: "keep m (map f xs) = map f (keep m xs)"
proof -
  have "zip (map f xs) m = map (\<lambda>p. (f (fst p), snd p)) (zip xs m)"
    by (simp add: zip_map1 case_prod_unfold)
  then show ?thesis
    by (simp add: keep_def filter_map comp_def)
qed

lemma keep_map_mask:
  "length xs = length ys \<Longrightarrow>
   keep (map P xs) ys = map snd (filter (\<lambda>p. P (fst p)) (zip xs ys))"
  unfolding keep_def
  by (induction xs ys rule: list_induct2) auto

lemma keep_map_self: "keep (map P xs) xs = filter P xs"
  unfolding keep_def by (induction xs) auto

lemma keep_none: "k \<notin> set states \<Longrightarrow> keep (map (\<lambda>s. s = k) states) xs = []"
  by (auto simp: keep_def filter_empty_conv dest!: set_zip_rightD)

lemma map_of_map_snd:
  "map_of (map (\<lambda>nc. (fst nc, g (snd nc))) cs) k = map_option g (map_of cs k)"
  by (induction cs) auto

lemma getitem_mask_rows:
  assumes "mask_rows f m = Inr f'"
  shows "getitem f' n = (case getitem f n of Inl e \<Rightarrow> Inl e | Inr c \<Rightarrow> Inr (col_keep m c))"
  using assms
  by (auto simp: mask_rows_def getitem_def map_of_map_snd split: if_splits option.splits)

lemma to_float_col_keep:
  "to_float c = Inr xs \<Longrightarrow> to_float (col_keep m c) = Inr (keep m xs)"
  by (cases c) (auto simp: keep_map)

lemma state_var_eq:
  assumes "length states = length (index fridays)"
    and "getitem fridays ''returns'' = Inr c"
    and "to_float c = Inr rs"
  shows "state_var fsum fridays states k = Inr (series_var fsum (restricted rs states k))"
proof -
  let ?m = "map (\<lambda>s. s = k) states"
  obtain f where f: "mask_rows fridays ?m = Inr f"
    using assms(1) by (simp add: mask_rows_def)
  have "getitem f ''returns'' = Inr (col_keep ?m c)"
    using getitem_mask_rows [OF f, of "''returns''"] assms(2) by simp
  moreover have "to_float (col_keep ?m c) = Inr (keep ?m rs)"
    using assms(3) by (rule to_float_col_keep)
  ultimately show ?thesis
    by (simp add: state_var_def f restricted_def)
qed

lemma labels_eq:
  assumes "length states = length (index fridays)"
    and "getitem fridays ''returns'' = Inr c"
    and "to_float c = Inr rs"
  shows "labels fsum fridays states =
     Inr (if fgt (series_var fsum (restricted rs states 0))
                 (series_var fsum (restricted rs states 1))
          then [0 \<mapsto> ''High Vol'', 1 \<mapsto> ''Low Vol'']
          else [1 \<mapsto> ''High Vol'', 0 \<mapsto> ''Low Vol''])"
  by (simp add: labels_def state_var_eq [OF assms])

lemma series_var_few:
  "length (filter (\<lambda>x. x \<noteq> NaN) xs) \<le> 1 \<Longrightarrow> series_var fsum xs = NaN"
  by (simp add: series_var_def)

lemma series_var_Nil: "series_var fsum [] = NaN"
  by (simp add: series_var_def)

section \<open>The regime labels\<close>

text \<open>
  Claim C9. Whenever the labelling step runs (the state path has one entry per row and the
  frame has a numeric returns column), it returns a dictionary whose keys are exactly the
  states 0 and 1, whose two values are different, and are \<^verbatim>\<open>High Vol\<close> and
  \<^verbatim>\<open>Low Vol\<close>. Whenever \<^verbatim>\<open>var_0 > var_1\<close> does not hold, in particular on a tie and
  when one of the two variances is NaN, state 1 is \<^verbatim>\<open>High Vol\<close> and state 0 is
  \<^verbatim>\<open>Low Vol\<close>. This holds whatever the order of summation inside the variance.
\<close>

theorem labels_total_injective:
  assumes "length states = length (index fridays)"
    and "getitem fridays ''returns'' = Inr c"
    and "to_float c = Inr rs"
  shows "\<exists>lab var_0 var_1.
           state_var fsum fridays states 0 = Inr var_0 \<and>
           state_var fsum fridays states 1 = Inr var_1 \<and>
           labels fsum fridays states = Inr lab \<and>
           dom lab = {0, 1} \<and> lab 0 \<noteq> lab 1 \<and>
           ran lab = {''High Vol'', ''Low Vol''} \<and>
           (\<not> fgt var_0 var_1 \<or> var_0 = var_1 \<or> var_0 = NaN \<or> var_1 = NaN \<longrightarrow>
              lab = [1 \<mapsto> ''High Vol'', 0 \<mapsto> ''Low Vol''])"
proof -
  let ?v0 = "series_var fsum (restricted rs states 0)"
  let ?v1 = "series_var fsum (restricted rs states 1)"
  let ?lab = "if fgt ?v0 ?v1 then [0 \<mapsto> ''High Vol'', 1 \<mapsto> ''Low Vol'']
              else [1::int \<mapsto> ''High Vol'', 0 \<mapsto> ''Low Vol'']"
  have v0: "state_var fsum fridays states 0 = Inr ?v0"
    and v1: "state_var fsum fridays states 1 = Inr ?v1"
    using assms by (rule state_var_eq)+
  have lab: "labels fsum fridays states = Inr ?lab"
    using assms by (rule labels_eq)
  have dom: "dom ?lab = {0, 1}"
    by auto
  have inj: "?lab 0 \<noteq> ?lab 1"
    by simp
  have ran: "ran ?lab = {''High Vol'', ''Low Vol''}"
    by (simp add: ran_map_upd insert_commute)
  have els: "\<not> fgt ?v0 ?v1 \<or> ?v0 = ?v1 \<or> ?v0 = NaN \<or> ?v1 = NaN \<longrightarrow>
      ?lab = [1 \<mapsto> ''High Vol'', 0 \<mapsto> ''Low Vol'']"
    using fgt_irrefl [of ?v1] fgt_NaN_right [of ?v0] fgt_NaN_left [of ?v1] by auto
  from v0 v1 lab dom inj ran els show ?thesis
    by blast
qed

theorem labels_total_injective_witness:
  "\<exists>lab. labels seq_sum
                 \<lparr>index = [1, 8, 15, 22],
                  columns = [(''AAPL'', FloatCol [Fin 10, Fin 11, Fin 12, Fin 13]),
                             (''returns'', FloatCol [Fin 1, Fin 3, Fin 2, Fin 4])]\<rparr>
                 [0, 0, 1, 1] = Inr lab \<and>
         lab 1 = Some ''High Vol'' \<and> lab 0 = Some ''Low Vol''"
proof -
  let ?f = "\<lparr>index = [1, 8, 15, 22],
             columns = [(''AAPL'', FloatCol [Fin 10, Fin 11, Fin 12, Fin 13]),
                        (''returns'', FloatCol [Fin 1, Fin 3, Fin 2, Fin 4])]\<rparr>"
  let ?s = "[0, 0, 1, 1] :: int list"
  have h1: "length ?s = length (index ?f)"
    by simp
  have h2: "getitem ?f ''returns'' = Inr (FloatCol [Fin 1, Fin 3, Fin 2, Fin 4])"
    by (simp add: getitem_def)
  have h3: "to_float (FloatCol [Fin 1, Fin 3, Fin 2, Fin 4]) = Inr [Fin 1, Fin 3, Fin 2, Fin 4]"
    by simp
  have e0: "state_var seq_sum ?f ?s 0 = Inr (Fin 2)"
    apply (simp add: state_var_def mask_rows_def keep_def getitem_def series_var_def
        seq_sum_def)
    apply (simp add: fl_int)
    done
  have e1: "state_var seq_sum ?f ?s 1 = Inr (Fin 2)"
    apply (simp add: state_var_def mask_rows_def keep_def getitem_def series_var_def
        seq_sum_def)
    apply (simp add: fl_int)
    done
  from labels_total_injective [OF h1 h2 h3, of seq_sum] e0 e1 show ?thesis
    by auto
qed

text \<open>
  Claim C1, as stated, fails in two ways. A state that is visited once has no sample
  variance: its \<^verbatim>\<open>var()\<close> is NaN, and the other state, whatever its variance, is labelled
  \<^verbatim>\<open>Low Vol\<close> when it is state 0. And the variances that are compared are rounded: on
  the second input the exact sample variance of state 1 is strictly the larger, yet state
  0 is labelled \<^verbatim>\<open>High Vol\<close>.
\<close>

theorem labels_sample_variance_counterexample:
  "(0 \<in> set [1, 0, 0 :: int] \<and> 1 \<in> set [1, 0, 0 :: int] \<and>
    state_var seq_sum
      \<lparr>index = [1, 8, 15],
       columns = [(''AAPL'', FloatCol [Fin 10, Fin 5, Fin 10]),
                  (''returns'', FloatCol [Fin 0, Fin (- 50), Fin 50])]\<rparr>
      [1, 0, 0] 0 = Inr (Fin 5000) \<and>
    state_var seq_sum
      \<lparr>index = [1, 8, 15],
       columns = [(''AAPL'', FloatCol [Fin 10, Fin 5, Fin 10]),
                  (''returns'', FloatCol [Fin 0, Fin (- 50), Fin 50])]\<rparr>
      [1, 0, 0] 1 = Inr NaN \<and>
    labels seq_sum
      \<lparr>index = [1, 8, 15],
       columns = [(''AAPL'', FloatCol [Fin 10, Fin 5, Fin 10]),
                  (''returns'', FloatCol [Fin 0, Fin (- 50), Fin 50])]\<rparr>
      [1, 0, 0] = Inr [1 \<mapsto> ''High Vol'', 0 \<mapsto> ''Low Vol'']) \<and>
   (spec_sample_variance [7 / 8, - 5 / 8, - 13 / 8] <
      spec_sample_variance [8444249301319681 / 4503599627370496, 3 / 8, - 5 / 8] \<and>
    labels seq_sum
      \<lparr>index = [1, 8, 15, 22, 29, 36],
       columns = [(''returns'',
                   FloatCol [Fin (7 / 8), Fin (- 5 / 8), Fin (- 13 / 8),
                             Fin (8444249301319681 / 4503599627370496), Fin (3 / 8),
                             Fin (- 5 / 8)])]\<rparr>
      [0, 0, 0, 1, 1, 1] = Inr [0 \<mapsto> ''High Vol'', 1 \<mapsto> ''Low Vol''])"
proof -
  let ?f = "\<lparr>index = [1, 8, 15],
             columns = [(''AAPL'', FloatCol [Fin 10, Fin 5, Fin 10]),
                        (''returns'', FloatCol [Fin 0, Fin (- 50), Fin 50])]\<rparr>"
  let ?g = "\<lparr>index = [1, 8, 15, 22, 29, 36],
             columns = [(''returns'',
                         FloatCol [Fin (7 / 8), Fin (- 5 / 8), Fin (- 13 / 8),
                                   Fin (8444249301319681 / 4503599627370496), Fin (3 / 8),
                                   Fin (- 5 / 8)])]\<rparr>"
  have a0: "state_var seq_sum ?f [1, 0, 0] 0 = Inr (Fin 5000)"
    apply (simp add: state_var_def mask_rows_def keep_def getitem_def series_var_def
        seq_sum_def)
    apply (simp add: fl_int)
    done
  have a1: "state_var seq_sum ?f [1, 0, 0] 1 = Inr NaN"
    by (simp add: state_var_def mask_rows_def keep_def getitem_def series_var_def)
  have a: "labels seq_sum ?f [1, 0, 0] = Inr [1 \<mapsto> ''High Vol'', 0 \<mapsto> ''Low Vol'']"
    unfolding labels_def a0 a1 by (simp add: fgt_def)
  have b0: "state_var seq_sum ?g [0, 0, 0, 1, 1, 1] 0 =
      Inr (Fin (3565349705001643 / 2251799813685248))"
    apply (simp add: state_var_def mask_rows_def keep_def getitem_def series_var_def
        seq_sum_def)
    apply (simp add: fl_round)
    done
  have b1: "state_var seq_sum ?g [0, 0, 0, 1, 1, 1] 1 =
      Inr (Fin (7130699410003285 / 4503599627370496))"
    apply (simp add: state_var_def mask_rows_def keep_def getitem_def series_var_def
        seq_sum_def)
    apply (simp add: fl_round)
    done
  have b: "labels seq_sum ?g [0, 0, 0, 1, 1, 1] = Inr [0 \<mapsto> ''High Vol'', 1 \<mapsto> ''Low Vol'']"
    unfolding labels_def b0 b1 by (simp add: fgt_def)
  have s: "spec_sample_variance [7 / 8, - 5 / 8, - 13 / 8] <
      spec_sample_variance [8444249301319681 / 4503599627370496, 3 / 8, - 5 / 8]"
    by (simp add: spec_sample_variance_def spec_mean_def power2_eq_square)
  from a0 a1 a b s show ?thesis
    by simp
qed

text \<open>
  Claim C1, amended. For each of the two states the labelling step computes
  \<^verbatim>\<open>Series.var()\<close> of the returns at the rows decoded as that state: the two-pass sample
  variance in float64, which is NaN when the state has fewer than two returns that are
  not missing. State 0 is labelled \<^verbatim>\<open>High Vol\<close> and state 1 \<^verbatim>\<open>Low Vol\<close> exactly when
  \<^verbatim>\<open>var_0 > var_1\<close> holds for these two floats; otherwise state 1 is \<^verbatim>\<open>High Vol\<close> and
  state 0 \<^verbatim>\<open>Low Vol\<close>. So the state whose computed variance is strictly larger is
  \<^verbatim>\<open>High Vol\<close>, and when one variance is NaN state 1 is. This holds whatever the
  order of summation inside the variance.
\<close>

theorem labels_larger_variance_high:
  assumes "length states = length (index fridays)"
    and "getitem fridays ''returns'' = Inr c"
    and "to_float c = Inr rs"
  shows "\<exists>lab var_0 var_1.
           state_var fsum fridays states 0 = Inr var_0 \<and>
           state_var fsum fridays states 1 = Inr var_1 \<and>
           labels fsum fridays states = Inr lab \<and>
           var_0 = series_var fsum (restricted rs states 0) \<and>
           var_1 = series_var fsum (restricted rs states 1) \<and>
           (length (filter (\<lambda>x. x \<noteq> NaN) (restricted rs states 0)) < 2 \<longrightarrow> var_0 = NaN) \<and>
           (length (filter (\<lambda>x. x \<noteq> NaN) (restricted rs states 1)) < 2 \<longrightarrow> var_1 = NaN) \<and>
           (fgt var_0 var_1 \<longrightarrow> lab = [0 \<mapsto> ''High Vol'', 1 \<mapsto> ''Low Vol'']) \<and>
           (fgt var_1 var_0 \<longrightarrow> lab = [1 \<mapsto> ''High Vol'', 0 \<mapsto> ''Low Vol'']) \<and>
           (\<not> fgt var_0 var_1 \<longrightarrow> lab = [1 \<mapsto> ''High Vol'', 0 \<mapsto> ''Low Vol''])"
proof -
  let ?v = "\<lambda>k. series_var fsum (restricted rs states k)"
  let ?lab = "if fgt (?v 0) (?v 1) then [0 \<mapsto> ''High Vol'', 1 \<mapsto> ''Low Vol'']
              else [1::int \<mapsto> ''High Vol'', 0 \<mapsto> ''Low Vol'']"
  have v0: "state_var fsum fridays states 0 = Inr (?v 0)"
    and v1: "state_var fsum fridays states 1 = Inr (?v 1)"
    using assms by (rule state_var_eq)+
  have lab: "labels fsum fridays states = Inr ?lab"
    using assms by (rule labels_eq)
  have few: "length (filter (\<lambda>x. x \<noteq> NaN) (restricted rs states k)) < 2 \<longrightarrow> ?v k = NaN" for k
    by (simp add: series_var_few)
  have hi: "fgt (?v 0) (?v 1) \<longrightarrow> ?lab = [0 \<mapsto> ''High Vol'', 1 \<mapsto> ''Low Vol'']"
    by simp
  have lo: "fgt (?v 1) (?v 0) \<longrightarrow> ?lab = [1 \<mapsto> ''High Vol'', 0 \<mapsto> ''Low Vol'']"
    using fgt_asym [of "?v 1" "?v 0"] by simp
  have el: "\<not> fgt (?v 0) (?v 1) \<longrightarrow> ?lab = [1 \<mapsto> ''High Vol'', 0 \<mapsto> ''Low Vol'']"
    by simp
  from v0 v1 lab few [of 0] few [of 1] hi lo el show ?thesis
    by blast
qed

theorem labels_larger_variance_high_witness:
  "labels seq_sum
     \<lparr>index = [1, 8, 15, 22],
      columns = [(''AAPL'', FloatCol [Fin 10, Fin 11, Fin 12, Fin 13]),
                 (''returns'', FloatCol [Fin 1, Fin 5, Fin 2, Fin 2])]\<rparr>
     [0, 0, 1, 1] = Inr [0 \<mapsto> ''High Vol'', 1 \<mapsto> ''Low Vol''] \<and>
   labels seq_sum
     \<lparr>index = [1, 8, 15, 22],
      columns = [(''AAPL'', FloatCol [Fin 10, Fin 11, Fin 12, Fin 13]),
                 (''returns'', FloatCol [Fin 1, Fin 5, Fin 2, Fin 2])]\<rparr>
     [1, 1, 0, 0] = Inr [1 \<mapsto> ''High Vol'', 0 \<mapsto> ''Low Vol''] \<and>
   labels seq_sum
     \<lparr>index = [1, 8, 15, 22],
      columns = [(''AAPL'', FloatCol [Fin 10, Fin 11, Fin 12, Fin 13]),
                 (''returns'', FloatCol [Fin 1, Fin 5, Fin 2, Fin 2])]\<rparr>
     [0, 0, 0, 1] = Inr [1 \<mapsto> ''High Vol'', 0 \<mapsto> ''Low Vol'']"
proof -
  let ?rs = "[Fin 1, Fin 5, Fin 2, Fin 2]"
  let ?f = "\<lparr>index = [1, 8, 15, 22],
             columns = [(''AAPL'', FloatCol [Fin 10, Fin 11, Fin 12, Fin 13]),
                        (''returns'', FloatCol ?rs)]\<rparr>"
  have h2: "getitem ?f ''returns'' = Inr (FloatCol ?rs)"
    by (simp add: getitem_def)
  have h3: "to_float (FloatCol ?rs) = Inr ?rs"
    by simp
  have hi: "series_var seq_sum [Fin 1, Fin 5] = Fin 8"
    apply (simp add: series_var_def seq_sum_def)
    apply (simp add: fl_int)
    done
  have lo: "series_var seq_sum [Fin 2, Fin 2] = Fin 0"
    apply (simp add: series_var_def seq_sum_def)
    apply (simp add: fl_int)
    done
  have r: "restricted ?rs [0, 0, 1, 1] 0 = [Fin 1, Fin 5]"
    "restricted ?rs [0, 0, 1, 1] 1 = [Fin 2, Fin 2]"
    "restricted ?rs [1, 1, 0, 0] 1 = [Fin 1, Fin 5]"
    "restricted ?rs [1, 1, 0, 0] 0 = [Fin 2, Fin 2]"
    "restricted ?rs [0, 0, 0, 1] 1 = [Fin 2]"
    by (simp_all add: restricted_def keep_def)
  have g: "fgt (Fin 8) (Fin 0)"
    by (simp add: fgt_def)
  have a: "labels seq_sum ?f [0, 0, 1, 1] = Inr [0 \<mapsto> ''High Vol'', 1 \<mapsto> ''Low Vol'']"
    using labels_larger_variance_high [of "[0, 0, 1, 1]" ?f, OF _ h2 h3, of seq_sum] g
    unfolding r hi lo by auto
  have b: "labels seq_sum ?f [1, 1, 0, 0] = Inr [1 \<mapsto> ''High Vol'', 0 \<mapsto> ''Low Vol'']"
    using labels_larger_variance_high [of "[1, 1, 0, 0]" ?f, OF _ h2 h3, of seq_sum] g
    unfolding r hi lo by auto
  have c: "labels seq_sum ?f [0, 0, 0, 1] = Inr [1 \<mapsto> ''High Vol'', 0 \<mapsto> ''Low Vol'']"
    using labels_larger_variance_high [of "[0, 0, 0, 1]" ?f, OF _ h2 h3, of seq_sum]
      fgt_NaN_right
    unfolding r by auto
  from a b c show ?thesis
    by simp
qed

text \<open>
  Claim C2, as stated, fails: on a state path that never visits state 1 the labelling step
  raises no error and returns a full dictionary of labels.
\<close>

theorem labels_unvisited_counterexample:
  "1 \<notin> set [0, 0, 0 :: int] \<and>
   labels seq_sum
          \<lparr>index = [1, 8, 15],
           columns = [(''AAPL'', FloatCol [Fin 10, Fin 11, Fin 12]),
                      (''returns'', FloatCol [Fin 1, Fin 2, Fin 3])]\<rparr>
          [0, 0, 0] = Inr [1 \<mapsto> ''High Vol'', 0 \<mapsto> ''Low Vol'']"
proof -
  let ?f = "\<lparr>index = [1, 8, 15],
             columns = [(''AAPL'', FloatCol [Fin 10, Fin 11, Fin 12]),
                        (''returns'', FloatCol [Fin 1, Fin 2, Fin 3])]\<rparr>"
  have v0: "state_var seq_sum ?f [0, 0, 0] 0 = Inr (Fin 1)"
    apply (simp add: state_var_def mask_rows_def keep_def getitem_def series_var_def
        seq_sum_def)
    apply (simp add: fl_int)
    done
  have v1: "state_var seq_sum ?f [0, 0, 0] 1 = Inr NaN"
    by (simp add: state_var_def mask_rows_def keep_def getitem_def series_var_def)
  have "labels seq_sum ?f [0, 0, 0] = Inr [1 \<mapsto> ''High Vol'', 0 \<mapsto> ''Low Vol'']"
    unfolding labels_def v0 v1 by (simp add: fgt_def)
  then show ?thesis
    by simp
qed

text \<open>
  Claim C2, amended. When the decoded state path never visits one of the two states, the
  variance of that state is NaN, the comparison \<^verbatim>\<open>var_0 > var_1\<close> is false, and the
  labelling step raises no error: it labels state 1 \<^verbatim>\<open>High Vol\<close> and state 0
  \<^verbatim>\<open>Low Vol\<close>.
\<close>

theorem labels_unvisited_no_error:
  assumes "length states = length (index fridays)"
    and "getitem fridays ''returns'' = Inr c"
    and "to_float c = Inr rs"
    and "0 \<notin> set states \<or> 1 \<notin> set states"
  shows "labels fsum fridays states = Inr [1 \<mapsto> ''High Vol'', 0 \<mapsto> ''Low Vol'']"
proof -
  have "series_var fsum (restricted rs states 0) = NaN \<or>
      series_var fsum (restricted rs states 1) = NaN"
    using assms(4) by (auto simp: restricted_def keep_none series_var_Nil)
  then have "\<not> fgt (series_var fsum (restricted rs states 0))
      (series_var fsum (restricted rs states 1))"
    using fgt_NaN_right fgt_NaN_left by auto
  then show ?thesis
    by (simp add: labels_eq [OF assms(1-3)])
qed

theorem labels_unvisited_no_error_witness:
  "labels seq_sum
          \<lparr>index = [1, 8, 15],
           columns = [(''AAPL'', FloatCol [Fin 10, Fin 11, Fin 12]),
                      (''returns'', FloatCol [Fin 4, Fin 0, Fin 6])]\<rparr>
          [1, 1, 1] = Inr [1 \<mapsto> ''High Vol'', 0 \<mapsto> ''Low Vol'']"
proof -
  let ?f = "\<lparr>index = [1, 8, 15],
             columns = [(''AAPL'', FloatCol [Fin 10, Fin 11, Fin 12]),
                        (''returns'', FloatCol [Fin 4, Fin 0, Fin 6])]\<rparr>"
  let ?s = "[1, 1, 1] :: int list"
  have h1: "length ?s = length (index ?f)"
    by simp
  have h2: "getitem ?f ''returns'' = Inr (FloatCol [Fin 4, Fin 0, Fin 6])"
    by (simp add: getitem_def)
  have h3: "to_float (FloatCol [Fin 4, Fin 0, Fin 6]) = Inr [Fin 4, Fin 0, Fin 6]"
    by simp
  have h4: "0 \<notin> set ?s \<or> 1 \<notin> set ?s"
    by simp
  show ?thesis
    using labels_unvisited_no_error [OF h1 h2 h3 h4] .
qed

section \<open>The weekly returns\<close>

lemma getitem_setitem:
  assumes "setitem f n c = Inr f'"
  shows "getitem f' k = (if k = n then Inr c else getitem f k)"
    and "index f' = index f"
  using assms
  by (auto simp: setitem_def getitem_def update_conv' split: if_splits)

lemma length_pct_change: "length (pct_change xs) = length xs"
  by (simp add: pct_change_def shift1_def)

lemma pct_change_nth:
  assumes "Suc t < length xs"
  shows "pct_change xs ! Suc t = fsub (fdiv (xs ! Suc t) (xs ! t)) (Fin 1)"
  using assms by (simp add: pct_change_def shift1_def)

text \<open>
  Claim C4, as stated, fails: the script computes \<open>(P\<^sub>t / P\<^sub>t\<^sub>-\<^sub>1 - 1) * 100\<close> in
  float64, which is not the value of \<open>100 * (P\<^sub>t - P\<^sub>t\<^sub>-\<^sub>1) / P\<^sub>t\<^sub>-\<^sub>1\<close>. On the
  prices 100, 110, 99 the two returns are \<^verbatim>\<open>10.000000000000009\<close> and
  \<^verbatim>\<open>-9.999999999999998\<close>, not 10 and \<open>-10\<close>.
\<close>

theorem returns_percent_change_counterexample:
  "bind_e (bind_e (fridays_returns ''AAPL''
                     \<lparr>index = [1, 8, 15],
                      columns = [(''AAPL'', FloatCol [Fin 100, Fin 110, Fin 99]),
                                 (''weekday'', IntCol [4, 4, 4])]\<rparr>)
                  (fridays_iloc ''AAPL''))
          returns_array =
     Inr [Fin (5629499534213125 / 562949953421312),
          Fin (- (5629499534213119 / 562949953421312))] \<and>
   (5629499534213125 / 562949953421312 :: real) \<noteq> 100 * (110 - 100) / 100 \<and>
   (- (5629499534213119 / 562949953421312) :: real) \<noteq> 100 * (99 - 110) / 110"
proof -
  have a: "fmul (fsub (fdiv (Fin 110) (Fin 100)) (Fin 1)) (Fin 100) =
      Fin (5629499534213125 / 562949953421312)"
    by (simp add: fl_round)
  have b: "fmul (fsub (fdiv (Fin 99) (Fin 110)) (Fin 1)) (Fin 100) =
      Fin (- (5629499534213119 / 562949953421312))"
    by (simp add: fl_round)
  show ?thesis
    by (simp add: fridays_returns_def fridays_iloc_def returns_array_def getitem_def
        setitem_def select_def iloc_from1_def pct_change_def shift1_def a b)
qed

text \<open>
  Claim C4, amended. Let the price column of \<open>fridays\<close> hold the prices
  \<open>P\<^sub>0, \<dots>, P\<^sub>M\<close>, none of them missing. After lines 38 and 39 the array of
  observations has \<open>M\<close> entries, one fewer than the prices (the first, undefined return
  is dropped), and its entry for position \<open>t + 1\<close> of the prices is the float64 result of
  \<open>(P\<^sub>t\<^sub>+\<^sub>1 / P\<^sub>t - 1) * 100\<close>, each of the three operations rounded to the nearest
  float. It is \<open>100 * (P\<^sub>t\<^sub>+\<^sub>1 - P\<^sub>t) / P\<^sub>t\<close> whenever none of the three
  operations rounds. The price column is not the column \<^verbatim>\<open>returns\<close> itself.
\<close>

theorem returns_percent_change:
  assumes "getitem fridays ticker = Inr (FloatCol ps)"
    and "length ps = length (index fridays)"
    and "ticker \<noteq> ''returns''"
    and "NaN \<notin> set ps"
  shows "\<exists>f38 f39 rs.
           fridays_returns ticker fridays = Inr f38 \<and>
           fridays_iloc ticker f38 = Inr f39 \<and>
           returns_array f39 = Inr rs \<and>
           length rs = length ps - 1 \<and>
           length (index f39) = length rs \<and>
           (\<forall>t<length rs.
              rs ! t = fmul (fsub (fdiv (ps ! Suc t) (ps ! t)) (Fin 1)) (Fin 100)) \<and>
           (\<forall>t<length rs. \<forall>p q.
              ps ! t = Fin p \<and> ps ! Suc t = Fin q \<and>
              fdiv (Fin q) (Fin p) = Fin (q / p) \<and>
              fsub (Fin (q / p)) (Fin 1) = Fin (q / p - 1) \<and>
              fmul (Fin (q / p - 1)) (Fin 100) = Fin ((q / p - 1) * 100) \<and> p \<noteq> 0 \<longrightarrow>
              rs ! t = Fin (100 * (q - p) / p))"
proof -
  let ?col = "FloatCol (map (\<lambda>x. fmul x (Fin 100)) (pct_change ps))"
  let ?rs = "drop 1 (map (\<lambda>x. fmul x (Fin 100)) (pct_change ps))"
  obtain f38 where s: "setitem fridays ''returns'' ?col = Inr f38"
    using assms(2) by (simp add: setitem_def length_pct_change)
  have f38: "fridays_returns ticker fridays = Inr f38"
    using assms(1) s by (simp add: fridays_returns_def)
  have g1: "map_of (columns f38) ticker = Some (FloatCol ps)"
    using getitem_setitem(1) [OF s, of ticker] assms(1,3)
    by (auto simp: getitem_def split: option.splits)
  have g2: "map_of (columns f38) ''returns'' = Some ?col"
    using getitem_setitem(1) [OF s, of "''returns''"]
    by (auto simp: getitem_def split: option.splits)
  let ?f39 = "iloc_from1 (f38\<lparr>columns := [(ticker, FloatCol ps), (''returns'', ?col)]\<rparr>)"
  have f39: "fridays_iloc ticker f38 = Inr ?f39"
    by (simp add: fridays_iloc_def select_def g1 g2)
  have ra: "returns_array ?f39 = Inr ?rs"
    using assms(3) by (simp add: returns_array_def getitem_def iloc_from1_def)
  have len: "length ?rs = length ps - 1"
    by (simp add: length_pct_change)
  have idx: "length (index ?f39) = length ?rs"
    using getitem_setitem(2) [OF s] assms(2)
    by (simp add: iloc_from1_def length_pct_change)
  have val: "?rs ! t = fmul (fsub (fdiv (ps ! Suc t) (ps ! t)) (Fin 1)) (Fin 100)"
    if t: "t < length ?rs" for t
  proof -
    have st: "Suc t < length ps"
      using t by (simp add: length_pct_change)
    then have "?rs ! t = fmul (pct_change ps ! Suc t) (Fin 100)"
      by (simp add: length_pct_change)
    then show ?thesis
      using st by (simp add: pct_change_nth)
  qed
  have exact: "?rs ! t = Fin (100 * (q - p) / p)"
    if t: "t < length ?rs" and pq: "ps ! t = Fin p" "ps ! Suc t = Fin q"
      and ex: "fdiv (Fin q) (Fin p) = Fin (q / p)"
        "fsub (Fin (q / p)) (Fin 1) = Fin (q / p - 1)"
        "fmul (Fin (q / p - 1)) (Fin 100) = Fin ((q / p - 1) * 100)"
      and nz: "p \<noteq> 0" for t p q
  proof -
    have "?rs ! t = Fin ((q / p - 1) * 100)"
      unfolding val [OF t] pq ex ..
    also have "(q / p - 1) * 100 = 100 * (q - p) / p"
      using nz by (simp add: field_simps)
    finally show ?thesis .
  qed
  from f38 f39 ra len idx val exact show ?thesis
    by blast
qed

theorem returns_percent_change_witness:
  "\<exists>f38 f39.
     fridays_returns ''AAPL'' \<lparr>index = [1, 8, 15],
                               columns = [(''AAPL'', FloatCol [Fin 100, Fin 150, Fin 75]),
                                          (''weekday'', IntCol [4, 4, 4])]\<rparr> = Inr f38 \<and>
     fridays_iloc ''AAPL'' f38 = Inr f39 \<and>
     returns_array f39 = Inr [Fin 50, Fin (- 50)]"
proof -
  let ?ps = "[Fin 100, Fin 150, Fin 75]"
  let ?f = "\<lparr>index = [1, 8, 15],
             columns = [(''AAPL'', FloatCol ?ps), (''weekday'', IntCol [4, 4, 4])]\<rparr>"
  have h1: "getitem ?f ''AAPL'' = Inr (FloatCol ?ps)"
    by (simp add: getitem_def)
  have h2: "length ?ps = length (index ?f)"
    by simp
  have h3: "''AAPL'' \<noteq> ''returns''"
    by simp
  have h4: "NaN \<notin> set ?ps"
    by simp
  have e: "fdiv (Fin 150) (Fin 100) = Fin (150 / 100)"
    "fsub (Fin (150 / 100)) (Fin 1) = Fin (150 / 100 - 1)"
    "fmul (Fin (150 / 100 - 1)) (Fin 100) = Fin ((150 / 100 - 1) * 100)"
    "fdiv (Fin 75) (Fin 150) = Fin (75 / 150)"
    "fsub (Fin (75 / 150)) (Fin 1) = Fin (75 / 150 - 1)"
    "fmul (Fin (75 / 150 - 1)) (Fin 100) = Fin ((75 / 150 - 1) * 100)"
    by (simp_all add: fl_round)
  from returns_percent_change [OF h1 h2 h3 h4]
  obtain f38 f39 rs where f: "fridays_returns ''AAPL'' ?f = Inr f38"
    "fridays_iloc ''AAPL'' f38 = Inr f39" "returns_array f39 = Inr rs"
    and len: "length rs = length ?ps - 1"
    and val: "\<forall>t<length rs. \<forall>p q.
       ?ps ! t = Fin p \<and> ?ps ! Suc t = Fin q \<and>
       fdiv (Fin q) (Fin p) = Fin (q / p) \<and>
       fsub (Fin (q / p)) (Fin 1) = Fin (q / p - 1) \<and>
       fmul (Fin (q / p - 1)) (Fin 100) = Fin ((q / p - 1) * 100) \<and> p \<noteq> 0 \<longrightarrow>
       rs ! t = Fin (100 * (q - p) / p)"
    by blast
  from len have l2: "length rs = 2"
    by simp
  from val [rule_format, of 0 100 150] l2 e have r0: "rs ! 0 = Fin 50"
    by simp
  from val [rule_format, of 1 150 75] l2 e have r1: "rs ! 1 = Fin (- 50)"
    by simp
  from l2 r0 r1 have "rs = [Fin 50, Fin (- 50)]"
    by (cases rs; cases "tl rs") (auto simp: nth_Cons')
  with f show ?thesis
    by blast
qed

section \<open>The Friday rows\<close>

lemma zip_filter_rows:
  assumes "length xs = length ys"
  shows "zip (filter P xs) (map snd (filter (\<lambda>r. P (fst r)) (zip xs ys))) =
         filter (\<lambda>r. P (fst r)) (zip xs ys)"
  using assms by (induction xs ys rule: list_induct2) auto

lemma length_filter_rows:
  assumes "length xs = length ys"
  shows "length (filter (\<lambda>r. P (fst r)) (zip xs ys)) = length (filter P xs)"
  using assms by (induction xs ys rule: list_induct2) auto

text \<open>
  Claim C8. The rows of \<open>fridays\<close> after line 37 are exactly the rows of the download
  whose date is a Friday (weekday 4), each with its own closing price, in the order of
  the download, hence chronological when the download is. No row is made up: a week
  without a Friday row contributes nothing. The price column is any column of the
  download other than \<^verbatim>\<open>weekday\<close>, which line 35 overwrites.
\<close>

theorem fridays_are_the_friday_rows:
  assumes "getitem df c = Inr (FloatCol ps)"
    and "length ps = length (index df)"
    and "c \<noteq> ''weekday''"
  shows "\<exists>fr ps'.
           fridays_filter df = Inr fr \<and>
           getitem fr c = Inr (FloatCol ps') \<and>
           index fr = filter (\<lambda>d. dayofweek d = 4) (index df) \<and>
           length ps' = length (index fr) \<and>
           zip (index fr) ps' = filter (\<lambda>r. dayofweek (fst r) = 4) (zip (index df) ps) \<and>
           subseq (zip (index fr) ps') (zip (index df) ps) \<and>
           (sorted_wrt (<) (index df) \<longrightarrow> sorted_wrt (<) (index fr))"
proof -
  let ?P = "\<lambda>d. dayofweek d = 4"
  let ?wd = "IntCol (map dayofweek (index df))"
  let ?m = "map ?P (index df)"
  let ?ps' = "map snd (filter (\<lambda>r. ?P (fst r)) (zip (index df) ps))"
  obtain df' where s: "setitem df ''weekday'' ?wd = Inr df'"
    by (simp add: setitem_def)
  have i: "index df' = index df"
    using s by (rule getitem_setitem(2))
  have w: "getitem df' ''weekday'' = Inr ?wd"
    using getitem_setitem(1) [OF s, of "''weekday''"] by simp
  have m: "col_eq ?wd 4 = ?m"
    by (simp add: comp_def)
  obtain fr where fr: "mask_rows df' ?m = Inr fr"
    by (simp add: mask_rows_def i)
  have ff: "fridays_filter df = Inr fr"
    by (simp only: fridays_filter_def df_weekday_def s bind_e_Inr w m fr)
  have idx: "index fr = filter ?P (index df)"
    using fr by (auto simp: mask_rows_def i keep_map_self split: if_splits)
  have "getitem df' c = Inr (FloatCol ps)"
    using getitem_setitem(1) [OF s, of c] assms(1,3) by simp
  then have "getitem fr c = Inr (FloatCol (keep ?m ps))"
    using getitem_mask_rows [OF fr, of c] by simp
  moreover have k: "keep ?m ps = ?ps'"
    using assms(2) by (simp add: keep_map_mask)
  ultimately have col: "getitem fr c = Inr (FloatCol ?ps')"
    by simp
  have z: "zip (index fr) ?ps' = filter (\<lambda>r. ?P (fst r)) (zip (index df) ps)"
    using zip_filter_rows [OF assms(2) [symmetric], of ?P] by (simp add: idx)
  have len: "length ?ps' = length (index fr)"
    using length_filter_rows [OF assms(2) [symmetric], of ?P] by (simp add: idx)
  have sub: "subseq (zip (index fr) ?ps') (zip (index df) ps)"
    by (simp add: z)
  have srt: "sorted_wrt (<) (index df) \<longrightarrow> sorted_wrt (<) (index fr)"
    by (simp add: idx sorted_wrt_filter)
  from ff col idx len z sub srt show ?thesis
    by blast
qed


theorem fridays_are_the_friday_rows_witness:
  "\<exists>fr. fridays_filter
           \<lparr>index = [0, 1, 4, 8, 11, 12, 22],
            columns = [(''AAPL'', FloatCol [Fin 10, Fin 11, Fin 12, Fin 13, Fin 14, Fin 15,
                                            Fin 16])]\<rparr> = Inr fr \<and>
         index fr = [1, 8, 22] \<and>
         getitem fr ''AAPL'' = Inr (FloatCol [Fin 11, Fin 13, Fin 16]) \<and>
         sorted_wrt (<) (index fr)"
proof -
  let ?ps = "[Fin 10, Fin 11, Fin 12, Fin 13, Fin 14, Fin 15, Fin 16]"
  let ?df = "\<lparr>index = [0, 1, 4, 8, 11, 12, 22], columns = [(''AAPL'', FloatCol ?ps)]\<rparr>"
  have h1: "getitem ?df ''AAPL'' = Inr (FloatCol ?ps)"
    by (simp add: getitem_def)
  have h2: "length ?ps = length (index ?df)"
    by simp
  have h3: "''AAPL'' \<noteq> ''weekday''"
    by simp
  have h4: "sorted_wrt (<) (index ?df)"
    by simp
  from fridays_are_the_friday_rows [OF h1 h2 h3]
  obtain fr ps' where fr: "fridays_filter ?df = Inr fr"
    and col: "getitem fr ''AAPL'' = Inr (FloatCol ps')"
    and idx: "index fr = filter (\<lambda>d. dayofweek d = 4) (index ?df)"
    and len: "length ps' = length (index fr)"
    and z: "zip (index fr) ps' = filter (\<lambda>r. dayofweek (fst r) = 4) (zip (index ?df) ?ps)"
    and srt: "sorted_wrt (<) (index ?df) \<longrightarrow> sorted_wrt (<) (index fr)"
    by blast
  have i: "index fr = [1, 8, 22]"
    using idx by (simp add: dayofweek_def)
  have "map snd (zip (index fr) ps') = [Fin 11, Fin 13, Fin 16]"
    unfolding z by (simp add: dayofweek_def)
  then have "ps' = [Fin 11, Fin 13, Fin 16]"
    using len by (simp add: map_snd_zip)
  with fr col i srt h4 show ?thesis
    by blast
qed

section \<open>The state column\<close>

text \<open>
  Claim C10. Line 57 succeeds when the state path has one entry per row, and leaves the
  row index and every column other than \<^verbatim>\<open>state\<close> as they were, in particular the
  closing prices and the returns; the labels of the columns stay in their order, with
  \<^verbatim>\<open>state\<close> appended if it was not there. The column \<^verbatim>\<open>state\<close> then has exactly
  one entry per row.
\<close>

theorem state_column_frame:
  assumes "length states = length (index fridays)"
  shows "\<exists>f'. fridays_state fridays states lab = Inr f' \<and>
           index f' = index fridays \<and>
           (\<forall>n. n \<noteq> ''state'' \<longrightarrow> getitem f' n = getitem fridays n) \<and>
           map fst (columns f') =
             (if ''state'' \<in> set (map fst (columns fridays)) then map fst (columns fridays)
              else map fst (columns fridays) @ [''state'']) \<and>
           getitem f' ''state'' = Inr (CatCol (rename_categories lab states)) \<and>
           length (rename_categories lab states) = length (index f')"
proof -
  let ?c = "CatCol (rename_categories lab states)"
  have len: "length (rename_categories lab states) = length (index fridays)"
    using assms by (simp add: rename_categories_def)
  then obtain f' where s: "setitem fridays ''state'' ?c = Inr f'"
    by (simp add: setitem_def)
  have fs: "fridays_state fridays states lab = Inr f'"
    using s by (simp add: fridays_state_def)
  have i: "index f' = index fridays"
    using s by (rule getitem_setitem(2))
  have others: "\<forall>n. n \<noteq> ''state'' \<longrightarrow> getitem f' n = getitem fridays n"
    using getitem_setitem(1) [OF s] by simp
  have st: "getitem f' ''state'' = Inr ?c"
    using getitem_setitem(1) [OF s, of "''state''"] by simp
  have names: "map fst (columns f') =
      (if ''state'' \<in> set (map fst (columns fridays)) then map fst (columns fridays)
       else map fst (columns fridays) @ [''state''])"
    using s by (auto simp: setitem_def update_keys simp del: set_map split: if_splits)
  from fs i others names st len show ?thesis
    by (simp add: i)
qed

theorem state_column_frame_witness:
  "\<exists>f'. fridays_state
           \<lparr>index = [8, 15, 22],
            columns = [(''AAPL'', FloatCol [Fin 110, Fin 99, Fin 99]),
                       (''returns'', FloatCol [Fin 10, Fin (- 10), Fin 0])]\<rparr>
           [0, 1, 1] [1 \<mapsto> ''High Vol'', 0 \<mapsto> ''Low Vol''] = Inr f' \<and>
         index f' = [8, 15, 22] \<and>
         getitem f' ''AAPL'' = Inr (FloatCol [Fin 110, Fin 99, Fin 99]) \<and>
         getitem f' ''returns'' = Inr (FloatCol [Fin 10, Fin (- 10), Fin 0]) \<and>
         getitem f' ''state'' =
           Inr (CatCol [CatStr ''Low Vol'', CatStr ''High Vol'', CatStr ''High Vol''])"
proof -
  let ?f = "\<lparr>index = [8, 15, 22],
             columns = [(''AAPL'', FloatCol [Fin 110, Fin 99, Fin 99]),
                        (''returns'', FloatCol [Fin 10, Fin (- 10), Fin 0])]\<rparr>"
  let ?s = "[0, 1, 1] :: int list"
  let ?lab = "[1 \<mapsto> ''High Vol'', 0 \<mapsto> ''Low Vol''] :: int \<rightharpoonup> string"
  have h: "length ?s = length (index ?f)"
    by simp
  have n1: "''AAPL'' \<noteq> ''state''" and n2: "''returns'' \<noteq> ''state''"
    by simp_all
  from state_column_frame [OF h, of ?lab]
  obtain f' where f: "fridays_state ?f ?s ?lab = Inr f'"
    and i: "index f' = index ?f"
    and o: "\<forall>n. n \<noteq> ''state'' \<longrightarrow> getitem f' n = getitem ?f n"
    and st: "getitem f' ''state'' = Inr (CatCol (rename_categories ?lab ?s))"
    by blast
  from o n1 have a: "getitem f' ''AAPL'' = Inr (FloatCol [Fin 110, Fin 99, Fin 99])"
    by (simp add: getitem_def)
  from o n2 have r: "getitem f' ''returns'' = Inr (FloatCol [Fin 10, Fin (- 10), Fin 0])"
    by (simp add: getitem_def)
  from st have c: "getitem f' ''state'' =
      Inr (CatCol [CatStr ''Low Vol'', CatStr ''High Vol'', CatStr ''High Vol''])"
    by (simp add: rename_categories_def)
  from f i a r c show ?thesis
    by simp
qed

section \<open>The configuration of the model\<close>

text \<open>
  Claim C6. Line 46 constructs the model with two states, an iteration cap of 10000, a
  covariance structure that is one of diagonal and full (it is full), and the seed given
  explicitly as the argument 2606, so that it is not drawn from the global random state.
\<close>

theorem model_configuration:
  "n_components model = 2 \<and> n_iter model = 10000 \<and>
   covariance_type model \<in> {Diag, Full} \<and> random_state model = Some 2606"
  by (simp add: model_def)

end
